theory Spec2Isabelle
  imports Main "HOL-Library.Word" "HOL-Library.Multiset"
begin

section \<open>Data model (internal/api: type User)\<close>

text \<open>
  Go's \<open>int\<close> on the 64-bit targets the service is built for is a 64-bit two's-complement
  integer: it is a \<open>64 word\<close>, read as a signed number with \<open>sint\<close>.
  \<open>time.Time\<close> and the database's timestamps are points on one time line, counted in
  microseconds (the resolution of a PostgreSQL timestamp).
\<close>

type_synonym go_int = "64 word"
type_synonym time = int

record User =
  ID :: go_int
  Name :: string
  Email :: string
  CreatedAt :: time
  UpdatedAt :: time

text \<open>
  A Go slice is either nil or a (possibly empty) sequence. \<open>var users []User\<close> declares a
  nil slice; \<open>append\<close> on it yields a non-nil one.
\<close>

datatype 'a slice = NilSlice | Slice "'a list"

fun elems :: "'a slice \<Rightarrow> 'a list" where
  "elems NilSlice = []"
| "elems (Slice xs) = xs"

definition len :: "'a slice \<Rightarrow> int" where
  "len s = int (length (elems s))"

fun append_slice :: "'a slice \<Rightarrow> 'a \<Rightarrow> 'a slice" where
  "append_slice NilSlice x = Slice [x]"
| "append_slice (Slice xs) x = Slice (xs @ [x])"

section \<open>Responses (c.JSON with a gin.H body)\<close>

text \<open>
  A binding error is either the JSON decoder's error (with its text) or the list of the
  field validations that failed (field name, tag that failed).
\<close>

datatype field_error = FieldError string string

datatype bind_error = DecodeError string | ValidationErrors "field_error list"

text \<open>
  The values the handlers put into a \<open>gin.H\<close>. \<open>VError e\<close> stands for the string
  \<open>err.Error()\<close> of the binding error \<open>e\<close>, passed on as it is.
\<close>

datatype gvalue =
    VStr string
  | VInt int
  | VTime time
  | VError bind_error
  | VUser User
  | VUsers "User slice"

type_synonym H = "(string \<times> gvalue) list"
type_synonym response = "nat \<times> H"

definition StatusOK :: nat where "StatusOK = 200"
definition StatusCreated :: nat where "StatusCreated = 201"
definition StatusBadRequest :: nat where "StatusBadRequest = 400"
definition StatusNotFound :: nat where "StatusNotFound = 404"
definition StatusInternalServerError :: nat where "StatusInternalServerError = 500"
definition StatusServiceUnavailable :: nat where "StatusServiceUnavailable = 503"

definition JSON :: "nat \<Rightarrow> H \<Rightarrow> response" where
  "JSON code obj = (code, obj)"

definition status :: "response \<Rightarrow> nat" where
  "status r = fst r"

definition body_field :: "response \<Rightarrow> string \<Rightarrow> gvalue option" where
  "body_field r k = map_of (snd r) k"

text \<open>
  The encoding of the \<open>users\<close> value in the response body (encoding/json): a nil slice
  is encoded as \<open>null\<close>, a non-nil slice as an array, a \<open>User\<close> as the object of its
  tagged fields.
\<close>

datatype json =
    JNull
  | JNumber int
  | JString string
  | JTime time
  | JArray "json list"
  | JObject "(string \<times> json) list"

definition json_of_User :: "User \<Rightarrow> json" where
  "json_of_User u = JObject
     [(''id'', JNumber (sint (ID u))), (''name'', JString (Name u)),
      (''email'', JString (Email u)), (''created_at'', JTime (CreatedAt u)),
      (''updated_at'', JTime (UpdatedAt u))]"

fun json_of_slice :: "User slice \<Rightarrow> json" where
  "json_of_slice NilSlice = JNull"
| "json_of_slice (Slice us) = JArray (map json_of_User us)"

section \<open>strconv.Atoi\<close>

text \<open>
  The handlers read the path parameter with Go's \<open>strconv.Atoi\<close> and only test whether it
  returned an error. On a 64-bit \<open>int\<close> it accepts an optional sign followed by one or more
  decimal digits whose value lies in the range of the type; the loop below is its
  accumulation \<open>n = n*10 + int(ch)\<close>. \<open>None\<close> is a non-nil error.
\<close>

definition is_digit :: "char \<Rightarrow> bool" where
  "is_digit c \<longleftrightarrow> 48 \<le> (of_char c :: nat) \<and> (of_char c :: nat) \<le> 57"

definition digit_val :: "char \<Rightarrow> nat" where
  "digit_val c = of_char c - 48"

fun accumulate :: "nat \<Rightarrow> string \<Rightarrow> nat" where
  "accumulate n [] = n"
| "accumulate n (ch # s) = accumulate (n * 10 + digit_val ch) s"

definition is_sign :: "char \<Rightarrow> bool" where
  "is_sign c \<longleftrightarrow> c = CHR ''-'' \<or> c = CHR ''+''"

definition Atoi :: "string \<Rightarrow> go_int option" where
  "Atoi s0 =
     (let s = (case s0 of [] \<Rightarrow> [] | c # cs \<Rightarrow> if is_sign c then cs else s0) in
      if s = [] \<or> \<not> list_all is_digit s then None
      else
        let n = int (accumulate 0 s);
            v = (case s0 of [] \<Rightarrow> n | c # cs \<Rightarrow> if c = CHR ''-'' then - n else n)
        in if v < - (2 ^ 63) \<or> 2 ^ 63 - 1 < v then None else Some (word_of_int v))"

text \<open>The decimal rendering of an id, as a client writes it into the path (strconv.Itoa).\<close>

definition digit_char :: "nat \<Rightarrow> char" where
  "digit_char d = char_of (48 + d)"

fun digits :: "nat \<Rightarrow> string" where
  "digits n = (if n < 10 then [digit_char n] else digits (n div 10) @ [digit_char (n mod 10)])"

declare digits.simps [simp del]

definition Itoa :: "go_int \<Rightarrow> string" where
  "Itoa i = (if sint i < 0 then CHR ''-'' # digits (nat (- sint i)) else digits (nat (sint i)))"

section \<open>The users table and the statements the handlers send\<close>

text \<open>
  The table is the list of its rows, each as the driver scans it into a \<open>User\<close>. What
  lies outside the service is an input of every request: \<open>fault\<close> is the error the
  backend answers the request's statement (or probe) with, if it fails for a reason of its
  own (unreachable, timed out, ...); \<open>now\<close> is the database's \<open>NOW()\<close> for the statement;
  \<open>newid\<close> is the value the \<open>id\<close> column's default generates for an insert.
\<close>

type_synonym table = "User list"

record env =
  fault :: "string option"
  now :: time
  newid :: go_int

text \<open>The error of a \<open>QueryRow(...).Scan(...)\<close>: \<open>pgx.ErrNoRows\<close> or any other error.\<close>

datatype pgerr = ErrNoRows | PgError string

text \<open>\<open>QueryRow(...).Scan(...)\<close> on the rows a statement returns: the first row, or no rows.\<close>

definition scan_row :: "User list \<Rightarrow> pgerr + User" where
  "scan_row rs = (case rs of [] \<Rightarrow> Inl ErrNoRows | r # _ \<Rightarrow> Inr r)"

text \<open>\<open>SELECT id, name, email, created_at, updated_at FROM users WHERE id = $1\<close>\<close>

definition select_user :: "env \<Rightarrow> go_int \<Rightarrow> table \<Rightarrow> pgerr + User" where
  "select_user e i t =
     (case fault e of
        Some msg \<Rightarrow> Inl (PgError msg)
      | None \<Rightarrow> scan_row (filter (\<lambda>r. ID r = i) t))"

text \<open>
  Modelled from the spec: the table's schema is not in the repository; the spec has \<open>id\<close>
  as the primary key, "uniquely assigned by the database", so an insert whose generated
  id is already in the table is rejected by the key's uniqueness. The statement is

  \<open>INSERT INTO users (name, email, created_at, updated_at) VALUES ($1, $2, NOW(), NOW())
  RETURNING id, name, email, created_at, updated_at\<close>
\<close>

definition insert_user :: "env \<Rightarrow> string \<Rightarrow> string \<Rightarrow> table \<Rightarrow> (pgerr + User) \<times> table" where
  "insert_user e name email t =
     (case fault e of
        Some msg \<Rightarrow> (Inl (PgError msg), t)
      | None \<Rightarrow>
          if newid e \<in> set (map ID t)
          then (Inl (PgError ''duplicate key value violates unique constraint''), t)
          else
            let r = \<lparr>ID = newid e, Name = name, Email = email,
                     CreatedAt = now e, UpdatedAt = now e\<rparr>
            in (scan_row [r], t @ [r]))"

text \<open>
  \<open>UPDATE users SET name = $1, email = $2, updated_at = NOW() WHERE id = $3
  RETURNING id, name, email, created_at, updated_at\<close>
\<close>

definition set_row :: "env \<Rightarrow> string \<Rightarrow> string \<Rightarrow> User \<Rightarrow> User" where
  "set_row e name email r = r\<lparr>Name := name, Email := email, UpdatedAt := now e\<rparr>"

definition update_user :: "env \<Rightarrow> string \<Rightarrow> string \<Rightarrow> go_int \<Rightarrow> table \<Rightarrow> (pgerr + User) \<times> table" where
  "update_user e name email i t =
     (case fault e of
        Some msg \<Rightarrow> (Inl (PgError msg), t)
      | None \<Rightarrow>
          (scan_row (map (set_row e name email) (filter (\<lambda>r. ID r = i) t)),
           map (\<lambda>r. if ID r = i then set_row e name email r else r) t))"

text \<open>\<open>DELETE FROM users WHERE id = $1\<close>, with the command tag's count of affected rows.\<close>

definition delete_user :: "env \<Rightarrow> go_int \<Rightarrow> table \<Rightarrow> (string + int) \<times> table" where
  "delete_user e i t =
     (case fault e of
        Some msg \<Rightarrow> (Inl msg, t)
      | None \<Rightarrow> (Inr (int (length (filter (\<lambda>r. ID r = i) t))), filter (\<lambda>r. ID r \<noteq> i) t))"

text \<open>
  \<open>SELECT id, name, email, created_at, updated_at FROM users ORDER BY created_at DESC\<close>

  SQL leaves the order of rows with equal \<open>created_at\<close> open; the model keeps them in
  table order.
\<close>

definition select_users :: "table \<Rightarrow> User list" where
  "select_users t = rev (sort_key CreatedAt (rev t))"

text \<open>
  The result of \<open>Query\<close> as the handler's loop reads it: what each \<open>rows.Scan\<close> in turn
  yields (the row, or an error) and the value of \<open>rows.Err()\<close> once \<open>rows.Next()\<close> has
  returned false. Besides the query failing as a whole, reading the result can fail at a
  row (\<open>ScanFails k\<close>: the scan of row number k, from 0) or break off after k rows
  (\<open>IterFails k msg\<close>).
\<close>

record Rows =
  scans :: "(string + User) list"
  Err :: "string option"

datatype query_fault = QueryFails string | ScanFails nat string | IterFails nat string

definition Query :: "query_fault option \<Rightarrow> table \<Rightarrow> string + Rows" where
  "Query f t =
     (case f of
        None \<Rightarrow> Inr \<lparr>scans = map Inr (select_users t), Err = None\<rparr>
      | Some (QueryFails msg) \<Rightarrow> Inl msg
      | Some (ScanFails k msg) \<Rightarrow>
          Inr \<lparr>scans = (map Inr (select_users t))[k := Inl msg], Err = None\<rparr>
      | Some (IterFails k msg) \<Rightarrow>
          Inr \<lparr>scans = map Inr (take k (select_users t)), Err = Some msg\<rparr>)"

section \<open>Request binding (c.ShouldBindJSON)\<close>

text \<open>
  A request body either does not decode into the handler's struct (\<open>Malformed\<close>, with the
  decoder's error text), or it is an object in which \<open>name\<close> and \<open>email\<close> are each absent
  or a string. An absent key leaves the struct field at its zero value, the empty string.
  The struct's tags are \<open>binding:"required"\<close> on \<open>Name\<close> and \<open>binding:"required,email"\<close> on
  \<open>Email\<close>; \<open>required\<close> fails on the zero value, and the tags of a field are checked in
  order up to the first that fails. The validator's email format is the parameter
  \<open>isEmail\<close>.
\<close>

datatype body = Malformed string | Object "string option" "string option"

definition zero_or :: "string option \<Rightarrow> string" where
  "zero_or v = (case v of None \<Rightarrow> [] | Some s \<Rightarrow> s)"

definition validate :: "(string \<Rightarrow> bool) \<Rightarrow> string \<Rightarrow> string \<Rightarrow> field_error list" where
  "validate isEmail name email =
     (if name = [] then [FieldError ''Name'' ''required''] else []) @
     (if email = [] then [FieldError ''Email'' ''required'']
      else if \<not> isEmail email then [FieldError ''Email'' ''email'']
      else [])"

definition ShouldBindJSON :: "(string \<Rightarrow> bool) \<Rightarrow> body \<Rightarrow> bind_error + (string \<times> string)" where
  "ShouldBindJSON isEmail b =
     (case b of
        Malformed msg \<Rightarrow> Inl (DecodeError msg)
      | Object n e \<Rightarrow>
          let name = zero_or n; email = zero_or e; errs = validate isEmail name email
          in if errs = [] then Inr (name, email) else Inl (ValidationErrors errs))"

section \<open>The handlers (internal/api)\<close>

text \<open>\<open>HealthCheck\<close>: the argument is the error of \<open>h.DB.Ping\<close>, if any, and \<open>time.Now()\<close>.\<close>

definition HealthCheck :: "string option \<Rightarrow> time \<Rightarrow> response" where
  "HealthCheck ping t =
     (case ping of
        Some err \<Rightarrow>
          JSON StatusServiceUnavailable
            [(''status'', VStr ''unhealthy''),
             (''message'', VStr ''Database connection failed''),
             (''error'', VStr err)]
      | None \<Rightarrow>
          JSON StatusOK
            [(''status'', VStr ''healthy''),
             (''message'', VStr ''Service is running''),
             (''time'', VTime t)])"

text \<open>The loop \<open>for rows.Next() { ... rows.Scan ... users = append(users, user) }\<close>.\<close>

fun scan_loop :: "(string + User) list \<Rightarrow> User slice \<Rightarrow> string + User slice" where
  "scan_loop [] users = Inr users"
| "scan_loop (Inl err # rest) users = Inl err"
| "scan_loop (Inr user # rest) users = scan_loop rest (append_slice users user)"

definition GetUsers :: "query_fault option \<Rightarrow> table \<Rightarrow> response" where
  "GetUsers f t =
     (case Query f t of
        Inl err \<Rightarrow>
          JSON StatusInternalServerError [(''error'', VStr ''Failed to fetch users'')]
      | Inr rows \<Rightarrow>
          (case scan_loop (scans rows) NilSlice of
             Inl err \<Rightarrow>
               JSON StatusInternalServerError [(''error'', VStr ''Failed to scan user data'')]
           | Inr users \<Rightarrow>
               (case Err rows of
                  Some err \<Rightarrow>
                    JSON StatusInternalServerError
                      [(''error'', VStr ''Error iterating over rows'')]
                | None \<Rightarrow>
                    JSON StatusOK [(''users'', VUsers users), (''count'', VInt (len users))])))"

definition GetUser :: "env \<Rightarrow> string \<Rightarrow> table \<Rightarrow> response" where
  "GetUser e idStr t =
     (case Atoi idStr of
        None \<Rightarrow> JSON StatusBadRequest [(''error'', VStr ''Invalid user ID'')]
      | Some i \<Rightarrow>
          (case select_user e i t of
             Inl err \<Rightarrow>
               if err = ErrNoRows
               then JSON StatusNotFound [(''error'', VStr ''User not found'')]
               else JSON StatusInternalServerError [(''error'', VStr ''Failed to fetch user'')]
           | Inr user \<Rightarrow> JSON StatusOK [(''user'', VUser user)]))"

definition CreateUser :: "(string \<Rightarrow> bool) \<Rightarrow> env \<Rightarrow> body \<Rightarrow> table \<Rightarrow> response \<times> table" where
  "CreateUser isEmail e b t =
     (case ShouldBindJSON isEmail b of
        Inl err \<Rightarrow> (JSON StatusBadRequest [(''error'', VError err)], t)
      | Inr (name, email) \<Rightarrow>
          (case insert_user e name email t of
             (Inl err, t') \<Rightarrow>
               (JSON StatusInternalServerError [(''error'', VStr ''Failed to create user'')], t')
           | (Inr user, t') \<Rightarrow>
               (JSON StatusCreated
                  [(''message'', VStr ''User created successfully''), (''user'', VUser user)],
                t')))"

definition UpdateUser :: "(string \<Rightarrow> bool) \<Rightarrow> env \<Rightarrow> string \<Rightarrow> body \<Rightarrow> table \<Rightarrow> response \<times> table" where
  "UpdateUser isEmail e idStr b t =
     (case Atoi idStr of
        None \<Rightarrow> (JSON StatusBadRequest [(''error'', VStr ''Invalid user ID'')], t)
      | Some i \<Rightarrow>
          (case ShouldBindJSON isEmail b of
             Inl err \<Rightarrow> (JSON StatusBadRequest [(''error'', VError err)], t)
           | Inr (name, email) \<Rightarrow>
               (case update_user e name email i t of
                  (Inl err, t') \<Rightarrow>
                    if err = ErrNoRows
                    then (JSON StatusNotFound [(''error'', VStr ''User not found'')], t')
                    else (JSON StatusInternalServerError
                            [(''error'', VStr ''Failed to update user'')], t')
                | (Inr user, t') \<Rightarrow>
                    (JSON StatusOK
                       [(''message'', VStr ''User updated successfully''), (''user'', VUser user)],
                     t'))))"

definition DeleteUser :: "env \<Rightarrow> string \<Rightarrow> table \<Rightarrow> response \<times> table" where
  "DeleteUser e idStr t =
     (case Atoi idStr of
        None \<Rightarrow> (JSON StatusBadRequest [(''error'', VStr ''Invalid user ID'')], t)
      | Some i \<Rightarrow>
          (case delete_user e i t of
             (Inl err, t') \<Rightarrow>
               (JSON StatusInternalServerError [(''error'', VStr ''Failed to delete user'')], t')
           | (Inr rowsAffected, t') \<Rightarrow>
               if rowsAffected = 0
               then (JSON StatusNotFound [(''error'', VStr ''User not found'')], t')
               else (JSON StatusOK [(''message'', VStr ''User deleted successfully'')], t')))"

section \<open>The process (main.go)\<close>

text \<open>
  \<open>main\<close> as the sequence of the calls it makes to the outside. A \<open>defer\<close> pushes a call
  that runs when the function returns; \<open>log.Fatal\<close> prints and calls \<open>os.Exit(1)\<close>, which
  ends the process at once, without running deferred calls.
\<close>

datatype event =
    PoolClose
  | GinDefault
  | SetupRoutes
  | LogPrintf string
  | ListenAndServe string
  | LogFatal string
  | OsExit int

record process =
  trace :: "event list"
  deferred :: "event list"
  running :: bool

definition start :: process where
  "start = \<lparr>trace = [], deferred = [], running = True\<rparr>"

definition call :: "event \<Rightarrow> process \<Rightarrow> process" where
  "call ev p = (if running p then p\<lparr>trace := trace p @ [ev]\<rparr> else p)"

definition defer_call :: "event \<Rightarrow> process \<Rightarrow> process" where
  "defer_call ev p = (if running p then p\<lparr>deferred := ev # deferred p\<rparr> else p)"

definition os_Exit :: "int \<Rightarrow> process \<Rightarrow> process" where
  "os_Exit code p =
     (if running p then p\<lparr>trace := trace p @ [OsExit code], running := False\<rparr> else p)"

definition log_Fatal :: "string \<Rightarrow> process \<Rightarrow> process" where
  "log_Fatal msg p = os_Exit 1 (call (LogFatal msg) p)"

definition return_from :: "process \<Rightarrow> process" where
  "return_from p =
     (if running p then p\<lparr>trace := trace p @ deferred p, deferred := [], running := False\<rparr>
      else p)"

text \<open>
  The arguments are the outside's answers: the error of \<open>initDB\<close> if any, the value of the
  environment variable \<open>PORT\<close>, and the error \<open>http.ListenAndServe\<close> returns, or \<open>None\<close>
  if it never returns because the process is ended from outside while it serves.
\<close>

definition main :: "string option \<Rightarrow> string \<Rightarrow> string option \<Rightarrow> process" where
  "main initErr PORT serveErr =
     (case initErr of
        Some err \<Rightarrow> return_from (log_Fatal (''Failed to connect to database:'' @ err) start)
      | None \<Rightarrow>
          let p1 = defer_call PoolClose start;
              p2 = call GinDefault p1;
              p3 = call SetupRoutes p2;
              port = (if PORT = [] then ''8080'' else PORT);
              p4 = call (LogPrintf (''Server starting on port '' @ port)) p3;
              p5 = call (ListenAndServe (CHR '':'' # port)) p4
          in case serveErr of
               None \<Rightarrow> p5\<lparr>running := False\<rparr>
             | Some err \<Rightarrow> return_from (log_Fatal err p5))"

section \<open>Example data\<close>

text \<open>
  A table of two rows, a backend that answers and one that does not, and a stand-in for
  the validator's email format, for evaluating the handlers on concrete requests.
\<close>

definition has_at :: "string \<Rightarrow> bool" where
  "has_at s \<longleftrightarrow> CHR ''@'' \<in> set s"

definition ada :: User where
  "ada = \<lparr>ID = 1, Name = ''Ada'', Email = ''ada@example.com'',
          CreatedAt = 1000, UpdatedAt = 2000\<rparr>"

definition bob :: User where
  "bob = \<lparr>ID = 2, Name = ''Bob'', Email = ''bob@example.com'',
          CreatedAt = 1500, UpdatedAt = 1500\<rparr>"

definition up :: env where
  "up = \<lparr>fault = None, now = 3000, newid = 3\<rparr>"

definition down :: env where
  "down = \<lparr>fault = Some ''connection refused'', now = 3000, newid = 3\<rparr>"

definition set_back :: env where
  "set_back = \<lparr>fault = None, now = 1200, newid = 3\<rparr>"

section \<open>Facts about strconv.Atoi\<close>

lemma is_digit_digit_char: "d < 10 \<Longrightarrow> is_digit (digit_char d)"
  by (simp add: is_digit_def digit_char_def)

lemma digit_val_digit_char: "d < 10 \<Longrightarrow> digit_val (digit_char d) = d"
  by (simp add: digit_val_def digit_char_def)

lemma digits_not_Nil: "digits n \<noteq> []"
  by (subst digits.simps) simp

lemma list_all_digits: "list_all is_digit (digits n)"
proof (induction n rule: digits.induct)
  case (1 n)
  show ?case
    by (subst digits.simps) (use 1 in \<open>simp add: is_digit_digit_char\<close>)
qed

lemma accumulate_append: "accumulate n (xs @ ys) = accumulate (accumulate n xs) ys"
  by (induction xs arbitrary: n) simp_all

lemma accumulate_digits: "accumulate 0 (digits n) = n"
proof (induction n rule: digits.induct)
  case (1 n)
  show ?case
    by (subst digits.simps) (use 1 in \<open>simp add: accumulate_append digit_val_digit_char\<close>)
qed

lemma not_sign_digit: "is_digit c \<Longrightarrow> \<not> is_sign c"
  by (auto simp: is_digit_def is_sign_def)

lemma Atoi_signed:
  assumes "ds \<noteq> []" "list_all is_digit ds" "int (accumulate 0 ds) \<le> 2 ^ 63"
  shows "Atoi (CHR ''-'' # ds) = Some (word_of_int (- int (accumulate 0 ds)))"
  using assms by (simp add: Atoi_def is_sign_def Let_def)

lemma Atoi_unsigned:
  assumes "ds = c # cs" "list_all is_digit ds" "int (accumulate 0 ds) \<le> 2 ^ 63 - 1"
  shows "Atoi ds = Some (word_of_int (int (accumulate 0 ds)))"
proof -
  have c: "\<not> is_sign c" "c \<noteq> CHR ''-''"
    using assms(1,2) not_sign_digit [of c] by (auto simp: is_sign_def)
  have "Atoi (c # cs) = Some (word_of_int (int (accumulate 0 (c # cs))))"
    unfolding Atoi_def Let_def list.case using c assms by (simp del: accumulate.simps)
  then show ?thesis using assms(1) by simp
qed

lemma Atoi_Itoa: "Atoi (Itoa i) = Some i"
proof (cases "sint i < 0")
  case True
  have r: "- (2 ^ 63) \<le> sint i" using sint_ge [of i] by simp
  have "Atoi (CHR ''-'' # digits (nat (- sint i))) =
        Some (word_of_int (- int (accumulate 0 (digits (nat (- sint i))))))"
    by (rule Atoi_signed)
       (use True r in \<open>simp_all add: digits_not_Nil list_all_digits accumulate_digits\<close>)
  then show ?thesis using True by (simp add: Itoa_def accumulate_digits)
next
  case False
  obtain c cs where d: "digits (nat (sint i)) = c # cs"
    using digits_not_Nil [of "nat (sint i)"] by (cases "digits (nat (sint i))") auto
  have r: "sint i \<le> 2 ^ 63 - 1" using sint_lt [of i] by simp
  have "Atoi (digits (nat (sint i))) =
        Some (word_of_int (int (accumulate 0 (digits (nat (sint i))))))"
    by (rule Atoi_unsigned [OF d])
       (use False r in \<open>simp_all add: list_all_digits accumulate_digits\<close>)
  then show ?thesis using False by (simp add: Itoa_def accumulate_digits)
qed

lemma Atoi_examples:
  "Atoi ''abc'' = None" "Atoi ''1'' = Some 1" "Atoi ''2'' = Some 2"
  "Atoi ''7'' = Some 7" "Atoi ''0'' = Some 0" "Atoi ''-5'' = Some (- 5)"
  by (simp_all add: Atoi_def is_sign_def is_digit_def digit_val_def)

section \<open>Facts about the statements and the responses\<close>

lemma scan_row_filter_empty:
  "i \<notin> ID ` set t \<Longrightarrow> scan_row (filter (\<lambda>r. ID r = i) t) = Inl ErrNoRows"
proof -
  assume "i \<notin> ID ` set t"
  then have "filter (\<lambda>r. ID r = i) t = []" by (auto simp: filter_empty_conv)
  then show ?thesis by (simp add: scan_row_def)
qed

lemma scan_row_filter_found:
  "i \<in> ID ` set t \<Longrightarrow> \<exists>u \<in> set t. ID u = i \<and> scan_row (filter (\<lambda>r. ID r = i) t) = Inr u"
proof -
  assume "i \<in> ID ` set t"
  then have "filter (\<lambda>r. ID r = i) t \<noteq> []" by (auto simp: filter_empty_conv)
  then obtain u us where f: "filter (\<lambda>r. ID r = i) t = u # us"
    by (cases "filter (\<lambda>r. ID r = i) t") auto
  then have "u \<in> set (filter (\<lambda>r. ID r = i) t)" by simp
  then have "u \<in> set t" "ID u = i" by auto
  then show ?thesis using f by (auto simp: scan_row_def)
qed

lemma status_JSON: "status (JSON code obj) = code"
  by (simp add: status_def JSON_def)

lemma body_field_JSON: "body_field (JSON code obj) k = map_of obj k"
  by (simp add: body_field_def JSON_def)

section \<open>Health check\<close>

text \<open>
  C6. \<open>HealthCheck\<close> probes the pool. If the probe succeeds the response is 200 with status
  "healthy" and a timestamp; if it fails the response is 503 with status "unhealthy" and the
  probe's error text in the field \<open>error\<close>.
\<close>

theorem HealthCheck_responses:
  "status (HealthCheck None t) = 200 \<and>
   body_field (HealthCheck None t) ''status'' = Some (VStr ''healthy'') \<and>
   body_field (HealthCheck None t) ''time'' = Some (VTime t) \<and>
   status (HealthCheck (Some err) t) = 503 \<and>
   body_field (HealthCheck (Some err) t) ''status'' = Some (VStr ''unhealthy'') \<and>
   body_field (HealthCheck (Some err) t) ''error'' = Some (VStr err)"
  by (simp add: HealthCheck_def status_JSON body_field_JSON StatusOK_def
      StatusServiceUnavailable_def)

section \<open>Get user\<close>

text \<open>
  C1. \<open>GetUser\<close>: a path id that does not parse gives 400. If it parses to \<open>i\<close>: when the
  lookup runs and the table has no row with id \<open>i\<close> the response is 404 (not 500); when the
  lookup fails for another reason it is 500; otherwise it is 200 with a row of the table
  whose id is \<open>i\<close>.
\<close>

theorem GetUser_responses:
  "(Atoi idStr = None \<longrightarrow> status (GetUser e idStr t) = 400) \<and>
   (\<forall>i. Atoi idStr = Some i \<longrightarrow>
      (fault e = None \<and> i \<notin> ID ` set t \<longrightarrow>
         status (GetUser e idStr t) = 404 \<and> status (GetUser e idStr t) \<noteq> 500) \<and>
      (fault e \<noteq> None \<longrightarrow> status (GetUser e idStr t) = 500) \<and>
      (fault e = None \<and> i \<in> ID ` set t \<longrightarrow>
         (\<exists>u \<in> set t. ID u = i \<and>
            GetUser e idStr t = JSON 200 [(''user'', VUser u)])))"
proof (intro conjI impI allI)
  assume "Atoi idStr = None"
  then show "status (GetUser e idStr t) = 400"
    by (simp add: GetUser_def status_JSON StatusBadRequest_def)
next
  fix i
  assume a: "Atoi idStr = Some i" and h: "fault e = None \<and> i \<notin> ID ` set t"
  then have "select_user e i t = Inl ErrNoRows"
    by (simp add: select_user_def scan_row_filter_empty)
  with a have s: "status (GetUser e idStr t) = 404"
    by (simp add: GetUser_def status_JSON StatusNotFound_def)
  then show "status (GetUser e idStr t) = 404" .
  from s show "status (GetUser e idStr t) \<noteq> 500" by simp
next
  fix i
  assume a: "Atoi idStr = Some i" and h: "fault e \<noteq> None"
  then obtain msg where "fault e = Some msg" by auto
  then have "select_user e i t = Inl (PgError msg)"
    by (simp add: select_user_def)
  with a show "status (GetUser e idStr t) = 500"
    by (simp add: GetUser_def status_JSON StatusInternalServerError_def)
next
  fix i
  assume a: "Atoi idStr = Some i" and h: "fault e = None \<and> i \<in> ID ` set t"
  then obtain u where u: "u \<in> set t" "ID u = i"
    and s: "scan_row (filter (\<lambda>r. ID r = i) t) = Inr u"
    using scan_row_filter_found [of i t] by auto
  from h s have "select_user e i t = Inr u" by (simp add: select_user_def)
  with a have "GetUser e idStr t = JSON 200 [(''user'', VUser u)]"
    by (simp add: GetUser_def StatusOK_def)
  with u show "\<exists>u \<in> set t. ID u = i \<and> GetUser e idStr t = JSON 200 [(''user'', VUser u)]"
    by auto
qed

theorem GetUser_responses_witness:
  "Atoi ''abc'' = None \<and> status (GetUser up ''abc'' [ada, bob]) = 400 \<and>
   Atoi ''7'' = Some 7 \<and> fault up = None \<and> 7 \<notin> ID ` set [ada, bob] \<and>
   status (GetUser up ''7'' [ada, bob]) = 404 \<and>
   fault down \<noteq> None \<and> status (GetUser down ''7'' [ada, bob]) = 500 \<and>
   Atoi ''2'' = Some 2 \<and> 2 \<in> ID ` set [ada, bob] \<and>
   (\<exists>u \<in> set [ada, bob]. ID u = 2 \<and> GetUser up ''2'' [ada, bob] = JSON 200 [(''user'', VUser u)])"
proof -
  have p: "Atoi ''abc'' = None" "Atoi ''7'' = Some 7" "Atoi ''2'' = Some 2"
    by (simp_all add: Atoi_examples)
  have f: "fault up = None" "fault down \<noteq> None"
    by (simp_all add: up_def down_def)
  have m: "7 \<notin> ID ` set [ada, bob]" "2 \<in> ID ` set [ada, bob]"
    by (simp_all add: ada_def bob_def)
  show ?thesis
    using p f m
      GetUser_responses [of "''abc''" up "[ada, bob]"]
      GetUser_responses [of "''7''" up "[ada, bob]"]
      GetUser_responses [of "''7''" down "[ada, bob]"]
      GetUser_responses [of "''2''" up "[ada, bob]"]
    by blast
qed

section \<open>Create user\<close>

lemma ShouldBindJSON_invalid:
  assumes "n = None \<or> n = Some [] \<or> em = None \<or> em = Some [] \<or>
           (\<exists>s. em = Some s \<and> \<not> isEmail s)"
  shows "\<exists>errs. errs \<noteq> [] \<and> ShouldBindJSON isEmail (Object n em) = Inl (ValidationErrors errs)"
proof -
  have "validate isEmail (zero_or n) (zero_or em) \<noteq> []"
    using assms by (auto simp: validate_def zero_or_def)
  then show ?thesis by (simp add: ShouldBindJSON_def Let_def)
qed

lemma ShouldBindJSON_valid:
  assumes "name \<noteq> []" "email \<noteq> []" "isEmail email"
  shows "ShouldBindJSON isEmail (Object (Some name) (Some email)) = Inr (name, email)"
  using assms by (simp add: ShouldBindJSON_def validate_def zero_or_def)

lemma CreateUser_bind_error:
  "ShouldBindJSON isEmail b = Inl err \<Longrightarrow>
   CreateUser isEmail e b t = (JSON 400 [(''error'', VError err)], t)"
  by (simp add: CreateUser_def StatusBadRequest_def)

text \<open>
  C2. \<open>CreateUser\<close>: a body that does not decode, or whose \<open>name\<close> is missing or empty, or
  whose \<open>email\<close> is missing, empty or not of email format, gives 400 with the binding
  error itself as the error text, and the table is left as it was. A valid body gives 201
  with the row created (the generated id, the given name and email, both timestamps the
  database's current time), which is then in the table, or 500, with the table as it was,
  if the insert fails.
\<close>

theorem CreateUser_responses:
  "CreateUser isEmail e (Malformed msg) t =
     (JSON 400 [(''error'', VError (DecodeError msg))], t) \<and>
   (n = None \<or> n = Some [] \<or> em = None \<or> em = Some [] \<or>
      (\<exists>s. em = Some s \<and> \<not> isEmail s) \<longrightarrow>
      (\<exists>err. ShouldBindJSON isEmail (Object n em) = Inl err \<and>
         CreateUser isEmail e (Object n em) t = (JSON 400 [(''error'', VError err)], t))) \<and>
   (name \<noteq> [] \<and> email \<noteq> [] \<and> isEmail email \<longrightarrow>
      (fault e = None \<and> newid e \<notin> ID ` set t \<longrightarrow>
         CreateUser isEmail e (Object (Some name) (Some email)) t =
           (JSON 201
              [(''message'', VStr ''User created successfully''),
               (''user'', VUser \<lparr>ID = newid e, Name = name, Email = email,
                                 CreatedAt = now e, UpdatedAt = now e\<rparr>)],
            t @ [\<lparr>ID = newid e, Name = name, Email = email,
                   CreatedAt = now e, UpdatedAt = now e\<rparr>])) \<and>
      (fault e \<noteq> None \<or> newid e \<in> ID ` set t \<longrightarrow>
         status (fst (CreateUser isEmail e (Object (Some name) (Some email)) t)) = 500 \<and>
         snd (CreateUser isEmail e (Object (Some name) (Some email)) t) = t))"
proof (intro conjI impI)
  show "CreateUser isEmail e (Malformed msg) t =
          (JSON 400 [(''error'', VError (DecodeError msg))], t)"
    by (simp add: CreateUser_bind_error ShouldBindJSON_def)
next
  assume "n = None \<or> n = Some [] \<or> em = None \<or> em = Some [] \<or>
          (\<exists>s. em = Some s \<and> \<not> isEmail s)"
  then obtain errs where "ShouldBindJSON isEmail (Object n em) = Inl (ValidationErrors errs)"
    using ShouldBindJSON_invalid [of n em isEmail] by blast
  then show "\<exists>err. ShouldBindJSON isEmail (Object n em) = Inl err \<and>
      CreateUser isEmail e (Object n em) t = (JSON 400 [(''error'', VError err)], t)"
    using CreateUser_bind_error by blast
next
  assume v: "name \<noteq> [] \<and> email \<noteq> [] \<and> isEmail email"
    and ok: "fault e = None \<and> newid e \<notin> ID ` set t"
  from v have b: "ShouldBindJSON isEmail (Object (Some name) (Some email)) = Inr (name, email)"
    by (simp add: ShouldBindJSON_valid)
  from ok show "CreateUser isEmail e (Object (Some name) (Some email)) t =
      (JSON 201
         [(''message'', VStr ''User created successfully''),
          (''user'', VUser \<lparr>ID = newid e, Name = name, Email = email,
                            CreatedAt = now e, UpdatedAt = now e\<rparr>)],
       t @ [\<lparr>ID = newid e, Name = name, Email = email,
              CreatedAt = now e, UpdatedAt = now e\<rparr>])"
    by (simp add: CreateUser_def b insert_user_def scan_row_def StatusCreated_def Let_def)
next
  assume v: "name \<noteq> [] \<and> email \<noteq> [] \<and> isEmail email"
    and bad: "fault e \<noteq> None \<or> newid e \<in> ID ` set t"
  from v have b: "ShouldBindJSON isEmail (Object (Some name) (Some email)) = Inr (name, email)"
    by (simp add: ShouldBindJSON_valid)
  from bad obtain err where "insert_user e name email t = (Inl err, t)"
    by (cases "fault e") (auto simp: insert_user_def)
  then have "CreateUser isEmail e (Object (Some name) (Some email)) t =
      (JSON 500 [(''error'', VStr ''Failed to create user'')], t)"
    by (simp add: CreateUser_def b StatusInternalServerError_def)
  then show "status (fst (CreateUser isEmail e (Object (Some name) (Some email)) t)) = 500"
    and "snd (CreateUser isEmail e (Object (Some name) (Some email)) t) = t"
    by (simp_all add: status_JSON)
qed

theorem CreateUser_responses_witness:
  "(\<exists>err. ShouldBindJSON has_at (Object None (Some ''ada@example.com'')) = Inl err \<and>
      CreateUser has_at up (Object None (Some ''ada@example.com'')) [ada, bob] =
        (JSON 400 [(''error'', VError err)], [ada, bob])) \<and>
   (\<exists>err. ShouldBindJSON has_at (Object (Some ''Cy'') (Some ''nowhere'')) = Inl err \<and>
      CreateUser has_at up (Object (Some ''Cy'') (Some ''nowhere'')) [ada, bob] =
        (JSON 400 [(''error'', VError err)], [ada, bob])) \<and>
   CreateUser has_at up (Object (Some ''Cy'') (Some ''cy@example.com'')) [ada, bob] =
     (JSON 201
        [(''message'', VStr ''User created successfully''),
         (''user'', VUser \<lparr>ID = 3, Name = ''Cy'', Email = ''cy@example.com'',
                           CreatedAt = 3000, UpdatedAt = 3000\<rparr>)],
      [ada, bob, \<lparr>ID = 3, Name = ''Cy'', Email = ''cy@example.com'',
                  CreatedAt = 3000, UpdatedAt = 3000\<rparr>]) \<and>
   status (fst (CreateUser has_at down (Object (Some ''Cy'') (Some ''cy@example.com''))
                  [ada, bob])) = 500 \<and>
   snd (CreateUser has_at down (Object (Some ''Cy'') (Some ''cy@example.com'')) [ada, bob]) =
     [ada, bob]"
proof -
  have v: "''Cy'' \<noteq> [] \<and> ''cy@example.com'' \<noteq> [] \<and> has_at ''cy@example.com''"
    "\<not> has_at ''nowhere''"
    by (simp_all add: has_at_def)
  have f: "fault up = None \<and> newid up \<notin> ID ` set [ada, bob]"
    "fault down \<noteq> None" "newid up = 3" "now up = 3000"
    by (simp_all add: up_def down_def ada_def bob_def)
  show ?thesis
    using v f
      CreateUser_responses [of has_at up _ "[ada, bob]" None "Some ''ada@example.com''"]
      CreateUser_responses [of has_at up _ "[ada, bob]" "Some ''Cy''" "Some ''nowhere''"]
      CreateUser_responses [of has_at up _ "[ada, bob]" _ _ "''Cy''" "''cy@example.com''"]
      CreateUser_responses [of has_at down _ "[ada, bob]" _ _ "''Cy''" "''cy@example.com''"]
    by simp
qed

section \<open>Delete user\<close>

text \<open>
  C4. \<open>DeleteUser\<close> with a path id that parses to \<open>i\<close> deletes the rows whose id is \<open>i\<close> and
  looks at the number of rows affected: 404 if it is zero, 200 with the confirmation
  message if it is one, and 500, with the table as it was, if the statement fails.
\<close>

theorem DeleteUser_responses:
  "Atoi idStr = Some i \<longrightarrow>
     (fault e \<noteq> None \<longrightarrow>
        DeleteUser e idStr t = (JSON 500 [(''error'', VStr ''Failed to delete user'')], t)) \<and>
     (fault e = None \<longrightarrow>
        snd (DeleteUser e idStr t) = filter (\<lambda>r. ID r \<noteq> i) t \<and>
        (length (filter (\<lambda>r. ID r = i) t) = 0 \<longrightarrow>
           fst (DeleteUser e idStr t) = JSON 404 [(''error'', VStr ''User not found'')]) \<and>
        (length (filter (\<lambda>r. ID r = i) t) = 1 \<longrightarrow>
           fst (DeleteUser e idStr t) =
             JSON 200 [(''message'', VStr ''User deleted successfully'')]))"
proof (intro impI conjI)
  assume a: "Atoi idStr = Some i" and "fault e \<noteq> None"
  then obtain msg where "fault e = Some msg" by auto
  then have "delete_user e i t = (Inl msg, t)" by (simp add: delete_user_def)
  with a show "DeleteUser e idStr t =
      (JSON 500 [(''error'', VStr ''Failed to delete user'')], t)"
    by (simp add: DeleteUser_def StatusInternalServerError_def)
next
  assume a: "Atoi idStr = Some i" and f: "fault e = None"
  then show "snd (DeleteUser e idStr t) = filter (\<lambda>r. ID r \<noteq> i) t"
    by (simp add: DeleteUser_def delete_user_def)
next
  assume a: "Atoi idStr = Some i" and f: "fault e = None"
    and z: "length (filter (\<lambda>r. ID r = i) t) = 0"
  then show "fst (DeleteUser e idStr t) = JSON 404 [(''error'', VStr ''User not found'')]"
    by (simp add: DeleteUser_def delete_user_def StatusNotFound_def)
next
  assume a: "Atoi idStr = Some i" and f: "fault e = None"
    and z: "length (filter (\<lambda>r. ID r = i) t) = 1"
  then show "fst (DeleteUser e idStr t) =
      JSON 200 [(''message'', VStr ''User deleted successfully'')]"
    by (simp add: DeleteUser_def delete_user_def StatusOK_def)
qed

theorem DeleteUser_responses_witness:
  "Atoi ''7'' = Some 7 \<and> Atoi ''2'' = Some 2 \<and> fault down \<noteq> None \<and> fault up = None \<and>
   DeleteUser down ''2'' [ada, bob] =
     (JSON 500 [(''error'', VStr ''Failed to delete user'')], [ada, bob]) \<and>
   length (filter (\<lambda>r. ID r = 7) [ada, bob]) = 0 \<and>
   DeleteUser up ''7'' [ada, bob] =
     (JSON 404 [(''error'', VStr ''User not found'')], [ada, bob]) \<and>
   length (filter (\<lambda>r. ID r = 2) [ada, bob]) = 1 \<and>
   DeleteUser up ''2'' [ada, bob] =
     (JSON 200 [(''message'', VStr ''User deleted successfully'')], [ada])"
proof -
  have p: "Atoi ''7'' = Some 7" "Atoi ''2'' = Some 2"
    by (simp_all add: Atoi_examples)
  have f: "fault up = None" "fault down \<noteq> None"
    by (simp_all add: up_def down_def)
  have c: "filter (\<lambda>r. ID r = 7) [ada, bob] = []" "filter (\<lambda>r. ID r = 2) [ada, bob] = [bob]"
    "filter (\<lambda>r. ID r \<noteq> 7) [ada, bob] = [ada, bob]" "filter (\<lambda>r. ID r \<noteq> 2) [ada, bob] = [ada]"
    by (simp_all add: ada_def bob_def)
  show ?thesis
    using p f c
      DeleteUser_responses [of "''2''" 2 down "[ada, bob]"]
      DeleteUser_responses [of "''7''" 7 up "[ada, bob]"]
      DeleteUser_responses [of "''2''" 2 up "[ada, bob]"]
    by (simp add: prod_eq_iff)
qed

section \<open>List users\<close>

lemma mset_select_users: "mset (select_users t) = mset t"
  by (simp add: select_users_def)

lemma select_users_descending:
  "sorted_wrt (\<lambda>a b. CreatedAt b \<le> CreatedAt a) (select_users t)"
proof -
  have "sorted (map CreatedAt (sort_key CreatedAt (rev t)))" by simp
  then have "sorted_wrt (\<lambda>a b. CreatedAt a \<le> CreatedAt b) (sort_key CreatedAt (rev t))"
    by (simp add: sorted_map)
  then show ?thesis by (simp add: select_users_def sorted_wrt_rev)
qed

lemma length_select_users: "length (select_users t) = length t"
  by (simp add: select_users_def)

lemma scan_loop_rows:
  "\<exists>users. scan_loop (map Inr us) s = Inr users \<and> elems users = elems s @ us"
proof (induction us arbitrary: s)
  case Nil
  then show ?case by simp
next
  case (Cons u us)
  obtain users where "scan_loop (map Inr us) (append_slice s u) = Inr users"
    and "elems users = elems (append_slice s u) @ us"
    using Cons [of "append_slice s u"] by blast
  moreover have "elems (append_slice s u) = elems s @ [u]" by (cases s) simp_all
  ultimately show ?case by simp
qed

lemma scan_loop_fails:
  "k < length us \<Longrightarrow> scan_loop ((map Inr us)[k := Inl msg]) s = Inl msg"
proof (induction us arbitrary: k s)
  case Nil
  then show ?case by simp
next
  case (Cons u us)
  then show ?case by (cases k) simp_all
qed

text \<open>
  C5. \<open>GetUsers\<close>, when the query and the reading of its rows succeed, answers 200 with all
  rows of the table (each as often as it is in the table, none left out), ordered by
  \<open>created_at\<close> descending, and a count equal to their number. It answers 500 when the query
  fails, when the scan of a row fails, and when the iteration over the rows fails.
\<close>

theorem GetUsers_responses:
  "(\<exists>users.
      GetUsers None t =
        JSON 200 [(''users'', VUsers users), (''count'', VInt (int (length (elems users))))] \<and>
      mset (elems users) = mset t \<and>
      sorted_wrt (\<lambda>a b. CreatedAt b \<le> CreatedAt a) (elems users)) \<and>
   status (GetUsers (Some (QueryFails msg)) t) = 500 \<and>
   (k < length t \<longrightarrow> status (GetUsers (Some (ScanFails k msg)) t) = 500) \<and>
   status (GetUsers (Some (IterFails k msg)) t) = 500"
proof (intro conjI impI)
  obtain users where s: "scan_loop (map Inr (select_users t)) NilSlice = Inr users"
    and el: "elems users = select_users t"
    using scan_loop_rows [of "select_users t" NilSlice] by auto
  have "GetUsers None t =
      JSON 200 [(''users'', VUsers users), (''count'', VInt (int (length (elems users))))]"
    by (simp add: GetUsers_def Query_def s len_def StatusOK_def)
  moreover have "mset (elems users) = mset t"
    by (simp add: el mset_select_users)
  moreover have "sorted_wrt (\<lambda>a b. CreatedAt b \<le> CreatedAt a) (elems users)"
    by (simp add: el select_users_descending)
  ultimately show "\<exists>users.
      GetUsers None t =
        JSON 200 [(''users'', VUsers users), (''count'', VInt (int (length (elems users))))] \<and>
      mset (elems users) = mset t \<and>
      sorted_wrt (\<lambda>a b. CreatedAt b \<le> CreatedAt a) (elems users)"
    by blast
next
  show "status (GetUsers (Some (QueryFails msg)) t) = 500"
    by (simp add: GetUsers_def Query_def status_JSON StatusInternalServerError_def)
next
  assume "k < length t"
  then have "scan_loop ((map Inr (select_users t))[k := Inl msg]) NilSlice = Inl msg"
    by (simp add: scan_loop_fails length_select_users)
  then show "status (GetUsers (Some (ScanFails k msg)) t) = 500"
    by (simp add: GetUsers_def Query_def status_JSON StatusInternalServerError_def)
next
  obtain users where "scan_loop (map Inr (take k (select_users t))) NilSlice = Inr users"
    using scan_loop_rows [of "take k (select_users t)" NilSlice] by auto
  then show "status (GetUsers (Some (IterFails k msg)) t) = 500"
    by (simp add: GetUsers_def Query_def status_JSON StatusInternalServerError_def)
qed

theorem GetUsers_responses_witness:
  "(1::nat) < length [ada, bob] \<and>
   status (GetUsers (Some (ScanFails 1 ''cannot scan'')) [ada, bob]) = 500"
proof -
  have "(1::nat) < length [ada, bob]" by simp
  then show ?thesis
    using GetUsers_responses [where t = "[ada, bob]" and k = 1 and msg = "''cannot scan''"]
    by blast
qed

text \<open>
  C9. On an empty table \<open>GetUsers\<close> answers 200 with count 0 and the nil slice as \<open>users\<close>,
  which is encoded as JSON \<open>null\<close>, not as the empty array an empty non-nil slice gives.
\<close>

theorem GetUsers_empty_table:
  "GetUsers None [] = JSON 200 [(''users'', VUsers NilSlice), (''count'', VInt 0)] \<and>
   json_of_slice NilSlice = JNull \<and>
   json_of_slice NilSlice \<noteq> JArray [] \<and>
   json_of_slice (Slice []) = JArray []"
  by (simp add: GetUsers_def Query_def select_users_def len_def StatusOK_def)

section \<open>Create, then get\<close>

lemma CreateUser_created:
  assumes "CreateUser isEmail e b t = (r, t')" and "status r = 201"
  shows "\<exists>name email.
           r = JSON 201
                 [(''message'', VStr ''User created successfully''),
                  (''user'', VUser \<lparr>ID = newid e, Name = name, Email = email,
                                    CreatedAt = now e, UpdatedAt = now e\<rparr>)] \<and>
           t' = t @ [\<lparr>ID = newid e, Name = name, Email = email,
                       CreatedAt = now e, UpdatedAt = now e\<rparr>] \<and>
           newid e \<notin> ID ` set t"
proof (cases "ShouldBindJSON isEmail b")
  case (Inl err)
  with assms show ?thesis
    by (auto simp: CreateUser_def status_JSON StatusBadRequest_def)
next
  case (Inr p)
  obtain name email where p: "p = (name, email)" by (cases p)
  show ?thesis
  proof (cases "fault e = None \<and> newid e \<notin> ID ` set t")
    case True
    with assms Inr p show ?thesis
      by (auto simp: CreateUser_def insert_user_def scan_row_def StatusCreated_def Let_def)
  next
    case False
    then obtain err where "insert_user e name email t = (Inl err, t)"
      by (cases "fault e") (auto simp: insert_user_def)
    with assms Inr p show ?thesis
      by (auto simp: CreateUser_def status_JSON StatusInternalServerError_def)
  qed
qed

lemma select_appended:
  assumes "ID u \<notin> ID ` set t" and "fault e = None"
  shows "select_user e (ID u) (t @ [u]) = Inr u"
proof -
  have "\<forall>r \<in> set t. ID r \<noteq> ID u"
    using assms(1) by (metis imageI)
  then have "filter (\<lambda>r. ID r = ID u) t = []"
    by (simp add: filter_empty_conv)
  then show ?thesis using assms(2) by (simp add: select_user_def scan_row_def)
qed

text \<open>
  C7. When \<open>CreateUser\<close> answers 201 with the row \<open>u\<close>, a \<open>GetUser\<close> on the resulting table,
  with the decimal rendering of \<open>u\<close>'s id as path id and a lookup that runs, answers 200
  with the same row \<open>u\<close>: the same id, name, email, created_at and updated_at.
\<close>

theorem create_then_get:
  assumes "CreateUser isEmail e b t = (r, t')"
    and "status r = 201"
    and "body_field r ''user'' = Some (VUser u)"
    and "fault e' = None"
  shows "GetUser e' (Itoa (ID u)) t' = JSON 200 [(''user'', VUser u)]"
proof -
  obtain name email where
    r: "r = JSON 201
              [(''message'', VStr ''User created successfully''),
               (''user'', VUser \<lparr>ID = newid e, Name = name, Email = email,
                                 CreatedAt = now e, UpdatedAt = now e\<rparr>)]"
    and t': "t' = t @ [\<lparr>ID = newid e, Name = name, Email = email,
                        CreatedAt = now e, UpdatedAt = now e\<rparr>]"
    and fresh: "newid e \<notin> ID ` set t"
    using CreateUser_created [OF assms(1,2)] by blast
  from r assms(3)
  have u: "u = \<lparr>ID = newid e, Name = name, Email = email,
                CreatedAt = now e, UpdatedAt = now e\<rparr>"
    by (simp add: body_field_JSON)
  then have "ID u \<notin> ID ` set t" using fresh by simp
  then have "select_user e' (ID u) (t @ [u]) = Inr u"
    using assms(4) by (rule select_appended)
  moreover have "t' = t @ [u]" using t' u by simp
  ultimately show ?thesis
    by (simp add: GetUser_def Atoi_Itoa StatusOK_def)
qed

theorem create_then_get_witness:
  "GetUser up (Itoa 3) [ada, bob, \<lparr>ID = 3, Name = ''Cy'', Email = ''cy@example.com'',
                                   CreatedAt = 3000, UpdatedAt = 3000\<rparr>] =
     JSON 200 [(''user'', VUser \<lparr>ID = 3, Name = ''Cy'', Email = ''cy@example.com'',
                                 CreatedAt = 3000, UpdatedAt = 3000\<rparr>)]"
proof -
  let ?u = "\<lparr>ID = 3, Name = ''Cy'', Email = ''cy@example.com'',
             CreatedAt = 3000, UpdatedAt = 3000\<rparr>"
  let ?r = "JSON 201 [(''message'', VStr ''User created successfully''), (''user'', VUser ?u)]"
  have c: "CreateUser has_at up (Object (Some ''Cy'') (Some ''cy@example.com'')) [ada, bob] =
             (?r, [ada, bob, ?u])"
    by (simp add: CreateUser_def ShouldBindJSON_def validate_def zero_or_def has_at_def
        insert_user_def scan_row_def up_def ada_def bob_def StatusCreated_def Let_def)
  have s: "status ?r = 201" by (simp add: status_JSON)
  have f: "body_field ?r ''user'' = Some (VUser ?u)" by (simp add: body_field_JSON)
  have g: "fault up = None" by (simp add: up_def)
  show ?thesis using create_then_get [OF c s f g] by simp
qed

section \<open>Update user\<close>

lemma update_rows_length:
  "length (map (\<lambda>r. if ID r = i then set_row e name email r else r) t) = length t"
  by simp

lemma update_rows_absent:
  "i \<notin> ID ` set t \<Longrightarrow> map (\<lambda>r. if ID r = i then set_row e name email r else r) t = t"
  by (induction t) auto

lemma update_user_absent:
  assumes "fault e = None" and "i \<notin> ID ` set t"
  shows "update_user e name email i t = (Inl ErrNoRows, t)"
proof -
  have "filter (\<lambda>r. ID r = i) t = []"
    using assms(2) by (auto simp: filter_empty_conv)
  then show ?thesis
    using assms by (simp add: update_user_def scan_row_def update_rows_absent)
qed

lemma update_user_present:
  assumes "fault e = None" and "i \<in> ID ` set t"
  shows "\<exists>u \<in> set t. ID u = i \<and>
           update_user e name email i t =
             (Inr (set_row e name email u),
              map (\<lambda>r. if ID r = i then set_row e name email r else r) t)"
proof -
  have "filter (\<lambda>r. ID r = i) t \<noteq> []"
    using assms(2) by (auto simp: filter_empty_conv)
  then obtain u us where f: "filter (\<lambda>r. ID r = i) t = u # us"
    by (cases "filter (\<lambda>r. ID r = i) t") auto
  then have "u \<in> set (filter (\<lambda>r. ID r = i) t)" by simp
  then have "u \<in> set t" "ID u = i" by auto
  then show ?thesis
    using assms(1) f by (auto simp: update_user_def scan_row_def)
qed

lemma UpdateUser_table:
  assumes "Atoi idStr = Some i" and "ShouldBindJSON isEmail b = Inr (name, email)"
    and "fault e = None"
  shows "snd (UpdateUser isEmail e idStr b t) =
           map (\<lambda>r. if ID r = i then set_row e name email r else r) t"
  using assms by (simp add: UpdateUser_def update_user_def split: sum.splits)

text \<open>
  C3, as amended. \<open>UpdateUser\<close> answers 400 when the path id does not parse or the body
  does not bind, 500 when the statement fails for a reason of its own, 404 when no row has
  the id; in these cases the table is as it was. Otherwise it answers 200 with the updated
  row, and in the table every row with the id has \<open>name\<close> and \<open>email\<close> overwritten and
  \<open>updated_at\<close> set to the database's current time, with \<open>id\<close> and \<open>created_at\<close> as they
  were, and every other row is unchanged. \<open>updated_at\<close> increases strictly where the
  database's current time is later than the value the row had.
\<close>

theorem UpdateUser_responses:
  "(Atoi idStr = None \<longrightarrow>
      UpdateUser isEmail e idStr b t = (JSON 400 [(''error'', VStr ''Invalid user ID'')], t)) \<and>
   (\<forall>i. Atoi idStr = Some i \<longrightarrow>
      (\<forall>err. ShouldBindJSON isEmail b = Inl err \<longrightarrow>
         UpdateUser isEmail e idStr b t = (JSON 400 [(''error'', VError err)], t)) \<and>
      (\<forall>name email. ShouldBindJSON isEmail b = Inr (name, email) \<longrightarrow>
         (fault e \<noteq> None \<longrightarrow>
            UpdateUser isEmail e idStr b t =
              (JSON 500 [(''error'', VStr ''Failed to update user'')], t)) \<and>
         (fault e = None \<and> i \<notin> ID ` set t \<longrightarrow>
            UpdateUser isEmail e idStr b t =
              (JSON 404 [(''error'', VStr ''User not found'')], t)) \<and>
         (fault e = None \<and> i \<in> ID ` set t \<longrightarrow>
            (\<exists>u \<in> set t. ID u = i \<and>
               fst (UpdateUser isEmail e idStr b t) =
                 JSON 200
                   [(''message'', VStr ''User updated successfully''),
                    (''user'', VUser (u\<lparr>Name := name, Email := email,
                                         UpdatedAt := now e\<rparr>))]) \<and>
            length (snd (UpdateUser isEmail e idStr b t)) = length t \<and>
            (\<forall>k < length t.
               ID (snd (UpdateUser isEmail e idStr b t) ! k) = ID (t ! k) \<and>
               CreatedAt (snd (UpdateUser isEmail e idStr b t) ! k) = CreatedAt (t ! k) \<and>
               (ID (t ! k) = i \<longrightarrow>
                  snd (UpdateUser isEmail e idStr b t) ! k =
                    (t ! k)\<lparr>Name := name, Email := email, UpdatedAt := now e\<rparr> \<and>
                  (UpdatedAt (t ! k) < now e \<longrightarrow>
                     UpdatedAt (t ! k) < UpdatedAt (snd (UpdateUser isEmail e idStr b t) ! k))) \<and>
               (ID (t ! k) \<noteq> i \<longrightarrow>
                  snd (UpdateUser isEmail e idStr b t) ! k = t ! k)))))"
proof (intro conjI impI allI)
  assume "Atoi idStr = None"
  then show "UpdateUser isEmail e idStr b t =
      (JSON 400 [(''error'', VStr ''Invalid user ID'')], t)"
    by (simp add: UpdateUser_def StatusBadRequest_def)
next
  fix i err
  assume "Atoi idStr = Some i" "ShouldBindJSON isEmail b = Inl err"
  then show "UpdateUser isEmail e idStr b t = (JSON 400 [(''error'', VError err)], t)"
    by (simp add: UpdateUser_def StatusBadRequest_def)
next
  fix i name email
  assume a: "Atoi idStr = Some i" "ShouldBindJSON isEmail b = Inr (name, email)"
    and "fault e \<noteq> None"
  then obtain msg where "fault e = Some msg" by auto
  then have "update_user e name email i t = (Inl (PgError msg), t)"
    by (simp add: update_user_def)
  with a show "UpdateUser isEmail e idStr b t =
      (JSON 500 [(''error'', VStr ''Failed to update user'')], t)"
    by (simp add: UpdateUser_def StatusInternalServerError_def)
next
  fix i name email
  assume a: "Atoi idStr = Some i" "ShouldBindJSON isEmail b = Inr (name, email)"
    and h: "fault e = None \<and> i \<notin> ID ` set t"
  then have "update_user e name email i t = (Inl ErrNoRows, t)"
    by (simp add: update_user_absent)
  with a show "UpdateUser isEmail e idStr b t =
      (JSON 404 [(''error'', VStr ''User not found'')], t)"
    by (simp add: UpdateUser_def StatusNotFound_def)
next
  fix i name email
  assume a: "Atoi idStr = Some i" "ShouldBindJSON isEmail b = Inr (name, email)"
    and h: "fault e = None \<and> i \<in> ID ` set t"
  then obtain u where u: "u \<in> set t" "ID u = i"
    and up: "update_user e name email i t =
        (Inr (set_row e name email u),
         map (\<lambda>r. if ID r = i then set_row e name email r else r) t)"
    using update_user_present [of e i t name email] by blast
  from a up have "fst (UpdateUser isEmail e idStr b t) =
      JSON 200
        [(''message'', VStr ''User updated successfully''),
         (''user'', VUser (u\<lparr>Name := name, Email := email, UpdatedAt := now e\<rparr>))]"
    by (simp add: UpdateUser_def StatusOK_def set_row_def)
  with u show "\<exists>u \<in> set t. ID u = i \<and>
      fst (UpdateUser isEmail e idStr b t) =
        JSON 200
          [(''message'', VStr ''User updated successfully''),
           (''user'', VUser (u\<lparr>Name := name, Email := email, UpdatedAt := now e\<rparr>))]"
    by blast
next
  fix i name email
  assume a: "Atoi idStr = Some i" "ShouldBindJSON isEmail b = Inr (name, email)"
    and h: "fault e = None \<and> i \<in> ID ` set t"
  then have "snd (UpdateUser isEmail e idStr b t) =
      map (\<lambda>r. if ID r = i then set_row e name email r else r) t"
    by (simp add: UpdateUser_table)
  then show "length (snd (UpdateUser isEmail e idStr b t)) = length t"
    by simp
next
  fix i name email k
  assume a: "Atoi idStr = Some i" "ShouldBindJSON isEmail b = Inr (name, email)"
    and h: "fault e = None \<and> i \<in> ID ` set t" and k: "k < length t"
  then have s: "snd (UpdateUser isEmail e idStr b t) =
      map (\<lambda>r. if ID r = i then set_row e name email r else r) t"
    by (simp add: UpdateUser_table)
  from k show "ID (snd (UpdateUser isEmail e idStr b t) ! k) = ID (t ! k)"
    by (simp add: s set_row_def)
  from k show "CreatedAt (snd (UpdateUser isEmail e idStr b t) ! k) = CreatedAt (t ! k)"
    by (simp add: s set_row_def)
  {
    assume "ID (t ! k) = i"
    with k show "snd (UpdateUser isEmail e idStr b t) ! k =
        (t ! k)\<lparr>Name := name, Email := email, UpdatedAt := now e\<rparr>"
      by (simp add: s set_row_def)
  }
  {
    assume "ID (t ! k) = i" "UpdatedAt (t ! k) < now e"
    with k show "UpdatedAt (t ! k) < UpdatedAt (snd (UpdateUser isEmail e idStr b t) ! k)"
      by (simp add: s set_row_def)
  }
  {
    assume "ID (t ! k) \<noteq> i"
    with k show "snd (UpdateUser isEmail e idStr b t) ! k = t ! k"
      by (simp add: s)
  }
qed

lemma example_bind:
  "ShouldBindJSON has_at (Object (Some ''Ada L'') (Some ''ada@example.com'')) =
     Inr (''Ada L'', ''ada@example.com'')"
  "ShouldBindJSON has_at (Object (Some []) (Some ''ada@example.com'')) =
     Inl (ValidationErrors [FieldError ''Name'' ''required''])"
  by (simp_all add: ShouldBindJSON_def validate_def zero_or_def has_at_def)

theorem UpdateUser_responses_witness:
  "Atoi ''abc'' = None \<and>
   UpdateUser has_at up ''abc'' (Object (Some ''Ada L'') (Some ''ada@example.com'')) [ada, bob] =
     (JSON 400 [(''error'', VStr ''Invalid user ID'')], [ada, bob]) \<and>
   UpdateUser has_at up ''1'' (Object (Some []) (Some ''ada@example.com'')) [ada, bob] =
     (JSON 400 [(''error'', VError (ValidationErrors [FieldError ''Name'' ''required'']))],
      [ada, bob]) \<and>
   UpdateUser has_at down ''1'' (Object (Some ''Ada L'') (Some ''ada@example.com'')) [ada, bob] =
     (JSON 500 [(''error'', VStr ''Failed to update user'')], [ada, bob]) \<and>
   UpdateUser has_at up ''7'' (Object (Some ''Ada L'') (Some ''ada@example.com'')) [ada, bob] =
     (JSON 404 [(''error'', VStr ''User not found'')], [ada, bob]) \<and>
   snd (UpdateUser has_at up ''1'' (Object (Some ''Ada L'') (Some ''ada@example.com''))
          [ada, bob]) ! 0 =
     ada\<lparr>Name := ''Ada L'', Email := ''ada@example.com'', UpdatedAt := now up\<rparr> \<and>
   UpdatedAt ada < now up \<and>
   UpdatedAt ada <
     UpdatedAt (snd (UpdateUser has_at up ''1'' (Object (Some ''Ada L'') (Some ''ada@example.com''))
                       [ada, bob]) ! 0) \<and>
   snd (UpdateUser has_at up ''1'' (Object (Some ''Ada L'') (Some ''ada@example.com''))
          [ada, bob]) ! 1 = bob"
proof -
  let ?b = "Object (Some ''Ada L'') (Some ''ada@example.com'')"
  have p: "Atoi ''abc'' = None" "Atoi ''1'' = Some 1" "Atoi ''7'' = Some 7"
    by (simp_all add: Atoi_examples)
  have f: "fault up = None" "fault down \<noteq> None" "UpdatedAt ada < now up"
    by (simp_all add: up_def down_def ada_def)
  have m: "7 \<notin> ID ` set [ada, bob]" "1 \<in> ID ` set [ada, bob]"
    by (simp_all add: ada_def bob_def)
  have k: "(0::nat) < length [ada, bob]" "(1::nat) < length [ada, bob]"
    "ID ([ada, bob] ! 0) = 1" "ID ([ada, bob] ! 1) \<noteq> 1"
    "[ada, bob] ! 0 = ada" "[ada, bob] ! 1 = bob"
    by (simp_all add: ada_def bob_def)
  note a = UpdateUser_responses [of "''abc''" has_at up ?b "[ada, bob]"]
  note b = UpdateUser_responses
    [of "''1''" has_at up "Object (Some []) (Some ''ada@example.com'')" "[ada, bob]"]
  note c = UpdateUser_responses [of "''1''" has_at down ?b "[ada, bob]"]
  note d = UpdateUser_responses [of "''7''" has_at up ?b "[ada, bob]"]
  note g = UpdateUser_responses [of "''1''" has_at up ?b "[ada, bob]"]
  have 1: "UpdateUser has_at up ''abc'' ?b [ada, bob] =
      (JSON 400 [(''error'', VStr ''Invalid user ID'')], [ada, bob])"
    using a p by blast
  have 2: "UpdateUser has_at up ''1'' (Object (Some []) (Some ''ada@example.com'')) [ada, bob] =
      (JSON 400 [(''error'', VError (ValidationErrors [FieldError ''Name'' ''required'']))],
       [ada, bob])"
    using b p example_bind by blast
  have 3: "UpdateUser has_at down ''1'' ?b [ada, bob] =
      (JSON 500 [(''error'', VStr ''Failed to update user'')], [ada, bob])"
    using c p f example_bind by blast
  have 4: "UpdateUser has_at up ''7'' ?b [ada, bob] =
      (JSON 404 [(''error'', VStr ''User not found'')], [ada, bob])"
    using d p f m example_bind by blast
  from g p f m example_bind(1)
  have all: "\<forall>k < length [ada, bob].
      (ID ([ada, bob] ! k) = 1 \<longrightarrow>
         snd (UpdateUser has_at up ''1'' ?b [ada, bob]) ! k =
           ([ada, bob] ! k)\<lparr>Name := ''Ada L'', Email := ''ada@example.com'',
                             UpdatedAt := now up\<rparr> \<and>
         (UpdatedAt ([ada, bob] ! k) < now up \<longrightarrow>
            UpdatedAt ([ada, bob] ! k) <
              UpdatedAt (snd (UpdateUser has_at up ''1'' ?b [ada, bob]) ! k))) \<and>
      (ID ([ada, bob] ! k) \<noteq> 1 \<longrightarrow>
         snd (UpdateUser has_at up ''1'' ?b [ada, bob]) ! k = [ada, bob] ! k)"
    by blast
  have 5: "snd (UpdateUser has_at up ''1'' ?b [ada, bob]) ! 0 =
      ada\<lparr>Name := ''Ada L'', Email := ''ada@example.com'', UpdatedAt := now up\<rparr>"
    and 6: "UpdatedAt ada < UpdatedAt (snd (UpdateUser has_at up ''1'' ?b [ada, bob]) ! 0)"
    using all [rule_format, OF k(1)] k(3,5) f(3) by auto
  have 7: "snd (UpdateUser has_at up ''1'' ?b [ada, bob]) ! 1 = bob"
    using all [rule_format, OF k(2)] k(4,6) by auto
  from p(1) 1 2 3 4 5 f(3) 6 7 show ?thesis by blast
qed

text \<open>
  C3, as stated, has \<open>updated_at\<close> increase strictly on every update. The statement sets it
  to the database's current time, whatever the row held: with the database clock at 1200
  and a row last written at 2000, the update succeeds and \<open>updated_at\<close> goes down to 1200.
\<close>

theorem UpdateUser_updated_at_counterexample:
  "Atoi ''1'' = Some 1 \<and> ID ada = 1 \<and> UpdatedAt ada = 2000 \<and>
   UpdateUser has_at set_back ''1'' (Object (Some ''Ada L'') (Some ''ada@example.com''))
       [ada, bob] =
     (JSON 200
        [(''message'', VStr ''User updated successfully''),
         (''user'', VUser \<lparr>ID = 1, Name = ''Ada L'', Email = ''ada@example.com'',
                           CreatedAt = 1000, UpdatedAt = 1200\<rparr>)],
      [\<lparr>ID = 1, Name = ''Ada L'', Email = ''ada@example.com'',
         CreatedAt = 1000, UpdatedAt = 1200\<rparr>, bob]) \<and>
   \<not> UpdatedAt ada < 1200"
  by (simp add: Atoi_examples example_bind UpdateUser_def update_user_def set_row_def
      scan_row_def set_back_def ada_def bob_def StatusOK_def)

section \<open>Path ids that parse\<close>

lemma GetUser_400_iff: "status (GetUser e idStr t) = 400 \<longleftrightarrow> Atoi idStr = None"
  by (simp add: GetUser_def status_JSON StatusBadRequest_def StatusNotFound_def
      StatusInternalServerError_def StatusOK_def split: option.splits sum.splits)

lemma DeleteUser_400_iff: "status (fst (DeleteUser e idStr t)) = 400 \<longleftrightarrow> Atoi idStr = None"
  by (simp add: DeleteUser_def status_JSON StatusBadRequest_def StatusNotFound_def
      StatusInternalServerError_def StatusOK_def split: option.splits sum.splits prod.splits)

lemma UpdateUser_400_iff:
  "status (fst (UpdateUser isEmail e idStr b t)) = 400 \<longleftrightarrow>
     Atoi idStr = None \<or> (\<exists>err. ShouldBindJSON isEmail b = Inl err)"
  by (simp add: UpdateUser_def status_JSON StatusBadRequest_def StatusNotFound_def
      StatusInternalServerError_def StatusOK_def split: option.splits sum.splits prod.splits)

lemma DeleteUser_absent:
  assumes "Atoi idStr = Some i" and "fault e = None" and "i \<notin> ID ` set t"
  shows "status (fst (DeleteUser e idStr t)) = 404"
proof -
  have "filter (\<lambda>r. ID r = i) t = []"
    using assms(3) by (auto simp: filter_empty_conv)
  then show ?thesis
    using assms(1,2)
    by (simp add: DeleteUser_def delete_user_def status_JSON StatusNotFound_def)
qed

lemma GetUser_absent:
  assumes "Atoi idStr = Some i" and "fault e = None" and "i \<notin> ID ` set t"
  shows "status (GetUser e idStr t) = 404"
  using assms
  by (simp add: GetUser_def select_user_def scan_row_filter_empty status_JSON
      StatusNotFound_def)

lemma UpdateUser_absent:
  assumes "Atoi idStr = Some i" and "fault e = None" and "i \<notin> ID ` set t"
    and "ShouldBindJSON isEmail b = Inr p"
  shows "status (fst (UpdateUser isEmail e idStr b t)) = 404"
proof -
  obtain name email where "p = (name, email)" by (cases p)
  then show ?thesis
    using assms
    by (simp add: UpdateUser_def update_user_absent status_JSON StatusNotFound_def)
qed

text \<open>
  C10, as amended. A path id that parses, "0" and "-5" among them, is well-formed for
  \<open>GetUser\<close>, \<open>UpdateUser\<close> and \<open>DeleteUser\<close>: \<open>GetUser\<close> and \<open>DeleteUser\<close> answer 400 exactly
  when the id does not parse, \<open>UpdateUser\<close> exactly when the id does not parse or the body
  does not bind. When the id parses, the statement runs and no row has the id, \<open>GetUser\<close>
  and \<open>DeleteUser\<close> answer 404, and so does \<open>UpdateUser\<close> if the body binds.
\<close>

theorem parsed_id_responses:
  "Atoi ''0'' = Some 0 \<and> Atoi ''-5'' = Some (- 5) \<and>
   (status (GetUser e idStr t) = 400 \<longleftrightarrow> Atoi idStr = None) \<and>
   (status (fst (DeleteUser e idStr t)) = 400 \<longleftrightarrow> Atoi idStr = None) \<and>
   (status (fst (UpdateUser isEmail e idStr b t)) = 400 \<longleftrightarrow>
      Atoi idStr = None \<or> (\<exists>err. ShouldBindJSON isEmail b = Inl err)) \<and>
   (\<forall>i. Atoi idStr = Some i \<and> fault e = None \<and> i \<notin> ID ` set t \<longrightarrow>
      status (GetUser e idStr t) = 404 \<and>
      status (fst (DeleteUser e idStr t)) = 404 \<and>
      ((\<exists>p. ShouldBindJSON isEmail b = Inr p) \<longrightarrow>
         status (fst (UpdateUser isEmail e idStr b t)) = 404))"
proof (intro conjI allI impI)
  show "Atoi ''0'' = Some 0" "Atoi ''-5'' = Some (- 5)"
    by (simp_all add: Atoi_examples)
  show "status (GetUser e idStr t) = 400 \<longleftrightarrow> Atoi idStr = None"
    by (rule GetUser_400_iff)
  show "status (fst (DeleteUser e idStr t)) = 400 \<longleftrightarrow> Atoi idStr = None"
    by (rule DeleteUser_400_iff)
  show "status (fst (UpdateUser isEmail e idStr b t)) = 400 \<longleftrightarrow>
      Atoi idStr = None \<or> (\<exists>err. ShouldBindJSON isEmail b = Inl err)"
    by (rule UpdateUser_400_iff)
next
  fix i
  assume h: "Atoi idStr = Some i \<and> fault e = None \<and> i \<notin> ID ` set t"
  then show "status (GetUser e idStr t) = 404"
    by (simp add: GetUser_absent)
  from h show "status (fst (DeleteUser e idStr t)) = 404"
    by (simp add: DeleteUser_absent)
  assume "\<exists>p. ShouldBindJSON isEmail b = Inr p"
  with h show "status (fst (UpdateUser isEmail e idStr b t)) = 404"
    by (auto simp: UpdateUser_absent)
qed

theorem parsed_id_responses_witness:
  "Atoi ''-5'' = Some (- 5) \<and> fault up = None \<and> - 5 \<notin> ID ` set [ada, bob] \<and>
   status (GetUser up ''-5'' [ada, bob]) = 404 \<and>
   status (fst (DeleteUser up ''-5'' [ada, bob])) = 404 \<and>
   status (fst (UpdateUser has_at up ''-5''
                  (Object (Some ''Ada L'') (Some ''ada@example.com'')) [ada, bob])) = 404 \<and>
   status (GetUser up ''-5'' [ada, bob]) \<noteq> 400"
proof -
  have p: "Atoi ''-5'' = Some (- 5)" by (simp add: Atoi_examples)
  have f: "fault up = None" by (simp add: up_def)
  have m: "- 5 \<notin> ID ` set [ada, bob]" by (simp add: ada_def bob_def)
  show ?thesis
    using p f m example_bind(1)
      parsed_id_responses [of up "''-5''" "[ada, bob]" has_at
        "Object (Some ''Ada L'') (Some ''ada@example.com'')"]
    by auto
qed

text \<open>
  C10, as stated, has \<open>UpdateUser\<close> too answer 404 rather than 400 whenever the id parses and
  no row matches. \<open>UpdateUser\<close> binds the body before it sends the statement: with the id
  "-5", which parses and matches no row, and a body whose \<open>name\<close> is empty, it answers 400.
\<close>

theorem parsed_id_counterexample:
  "Atoi ''-5'' = Some (- 5) \<and> fault up = None \<and> - 5 \<notin> ID ` set [ada, bob] \<and>
   UpdateUser has_at up ''-5'' (Object (Some []) (Some ''ada@example.com'')) [ada, bob] =
     (JSON 400 [(''error'', VError (ValidationErrors [FieldError ''Name'' ''required'']))],
      [ada, bob])"
  by (simp add: Atoi_examples example_bind UpdateUser_def up_def ada_def bob_def
      StatusBadRequest_def)

section \<open>Shutdown\<close>

lemma deferred_runs_on_return:
  "trace (return_from (call GinDefault (defer_call PoolClose start))) = [GinDefault, PoolClose]"
  by (simp add: return_from_def call_def defer_call_def start_def)

lemma main_never_closes: "PoolClose \<notin> set (trace (main initErr PORT serveErr))"
  by (cases initErr; cases serveErr)
     (simp_all add: main_def return_from_def log_Fatal_def os_Exit_def call_def
        defer_call_def start_def Let_def)

text \<open>
  C8. The claim is that on shutdown the pool's \<open>Close\<close> is invoked. \<open>main\<close> defers the call
  and then ends in \<open>log.Fatal(http.ListenAndServe(...))\<close>. When the server stops with an
  error, \<open>log.Fatal\<close> exits the process with the deferred \<open>Close\<close> still pending; when the
  process is ended from outside while it serves, \<open>main\<close> never returns either. In both
  runs the trace has no \<open>PoolClose\<close>.
\<close>

theorem main_exit_skips_Close:
  "trace (main None [] (Some ''accept tcp [::]:8080: use of closed network connection'')) =
     [GinDefault, SetupRoutes, LogPrintf ''Server starting on port 8080'',
      ListenAndServe '':8080'',
      LogFatal ''accept tcp [::]:8080: use of closed network connection'', OsExit 1] \<and>
   deferred (main None [] (Some ''accept tcp [::]:8080: use of closed network connection'')) =
     [PoolClose] \<and>
   trace (main None [] None) =
     [GinDefault, SetupRoutes, LogPrintf ''Server starting on port 8080'',
      ListenAndServe '':8080''] \<and>
   deferred (main None [] None) = [PoolClose]"
  by (simp add: main_def return_from_def log_Fatal_def os_Exit_def call_def
      defer_call_def start_def Let_def)

end
